theory Spec2Isabelle
  imports Complex_Main
begin

section \<open>Browser objects used by the LiveView component\<close>

text \<open>
  The realtime voice session lives in the React component \<open>LiveView\<close>. It keeps its
  session state in refs (\<open>audioContextRef\<close>, \<open>inputAudioContextRef\<close>,
  \<open>nextStartTimeRef\<close>, \<open>sourcesRef\<close>, \<open>sessionPromiseRef\<close>, \<open>streamRef\<close>) and three
  pieces of React state (\<open>isActive\<close>, \<open>status\<close>, \<open>error\<close>). The callbacks mutate these;
  here every callback is a function from the state before to the state after.

  Times are JavaScript numbers holding seconds on the output clock. They are idealised
  as reals: \<open>Math.max\<close> is \<open>max\<close> and \<open>+=\<close> is addition.
\<close>

text \<open>
  An \<open>AudioContext\<close>: its clock \<open>currentTime\<close>, whether its state is \<open>closed\<close>, and how
  many times \<open>close()\<close> has been called on it.
\<close>

record audio_context =
  currentTime :: real
  ctx_closed :: bool
  close_calls :: nat

definition ctx_close :: "audio_context \<Rightarrow> audio_context" where
  "ctx_close c = c\<lparr>ctx_closed := True, close_calls := Suc (close_calls c)\<rparr>"

text \<open>
  A \<open>MediaStreamTrack\<close> of the microphone stream, with the number of \<open>stop()\<close> calls
  it has received (it is live as long as there was none). A \<open>MediaStream\<close> is the list
  that \<open>getTracks()\<close> returns.
\<close>

record media_track =
  stop_calls :: nat

type_synonym media_stream = "media_track list"

definition track_stop :: "media_track \<Rightarrow> media_track" where
  "track_stop t = t\<lparr>stop_calls := Suc (stop_calls t)\<rparr>"

text \<open>
  The \<open>AudioBuffer\<close> that \<open>decodeAudioData(decode(base64Audio), ctx, 24000, 1)\<close> returns.
  Both helpers live in \<open>utils/audioUtils\<close>; the handler only reads the buffer's
  \<open>duration\<close>, so the decoded buffer is taken as given with the message.
\<close>

record audio_buffer =
  duration :: real

text \<open>
  An \<open>AudioBufferSourceNode\<close> made by \<open>ctx.createBufferSource()\<close>. Nodes are objects with
  identity: \<open>sourcesRef\<close> holds references to them, the browser holds the nodes. A node
  records its buffer, the time passed to \<open>start\<close>, and whether \<open>stop()\<close> was called on it.
\<close>

record source_node =
  node_id :: nat
  buffer :: audio_buffer
  start_when :: real
  stopped :: bool

text \<open>
  A \<open>LiveServerMessage\<close>, as far as \<open>onmessage\<close> reads it: the decoded audio of
  \<open>serverContent.modelTurn.parts[0].inlineData.data\<close> (\<open>None\<close> when any link of the
  optional chain is missing or the string is empty) and \<open>serverContent.interrupted\<close>.
\<close>

record server_message =
  inlineData :: "audio_buffer option"
  interrupted :: bool

text \<open>The exception a rejected \<open>getUserMedia\<close> promise carries.\<close>

record js_error =
  err_name :: string
  err_message :: string

text \<open>
  What the environment hands to one run of \<open>startSession\<close>: the two fresh audio
  contexts, the outcome of the microphone request, and the session the connect call
  yields.
\<close>

record start_env =
  new_inputCtx :: audio_context
  new_outputCtx :: audio_context
  getUserMedia :: "js_error + media_stream"
  connect :: nat

text \<open>
  The canvas behind \<open>canvasRef\<close>: whether \<open>getContext('2d')\<close> yields a context, its size,
  and the radius of the circle last filled on it (\<open>None\<close> after \<open>clearRect\<close> with nothing
  drawn since).
\<close>

record canvas =
  has_2d :: bool
  cv_width :: real
  cv_height :: real
  drawn_radius :: "real option"

section \<open>The state of LiveView\<close>

record live_view =
  isActive :: bool
  status :: string
  error :: "string option"
  audioContextRef :: "audio_context option"
  inputAudioContextRef :: "audio_context option"
  nextStartTimeRef :: real
  sourcesRef :: "nat list"
  sessionPromiseRef :: "nat option"
  streamRef :: "media_stream option"
  canvasRef :: "canvas option"
  nodes :: "source_node list"
  closed_sessions :: "nat list"
  sent_frames :: "real list list"

text \<open>
  \<open>sourcesRef\<close> is a JavaScript \<open>Set\<close> of node references, kept here as the list of
  node ids in insertion order. \<open>nodes\<close> is the browser's side: every source node created
  so far, at the index that is its id. \<open>closed_sessions\<close> lists the sessions on which
  \<open>close()\<close> was called and \<open>sent_frames\<close> the input frames passed to
  \<open>sendRealtimeInput\<close>.
\<close>

definition init_live_view :: "live_view" where
  "init_live_view =
     \<lparr>isActive = False, status = ''Ready to connect'', error = None,
      audioContextRef = None, inputAudioContextRef = None, nextStartTimeRef = 0,
      sourcesRef = [], sessionPromiseRef = None, streamRef = None,
      canvasRef = Some \<lparr>has_2d = True, cv_width = 320, cv_height = 320, drawn_radius = None\<rparr>,
      nodes = [], closed_sessions = [], sent_frames = []\<rparr>"

definition set_add :: "nat \<Rightarrow> nat list \<Rightarrow> nat list" where
  "set_add x xs = (if x \<in> set xs then xs else xs @ [x])"

definition set_delete :: "nat \<Rightarrow> nat list \<Rightarrow> nat list" where
  "set_delete x xs = removeAll x xs"

definition stop_node :: "nat list \<Rightarrow> source_node \<Rightarrow> source_node" where
  "stop_node ids n = (if node_id n \<in> set ids then n\<lparr>stopped := True\<rparr> else n)"

section \<open>The callbacks\<close>

text \<open>
  \<open>startSession\<close>: clears the error, creates both contexts and stores them, sets the
  cursor to the output context's clock, then asks for the microphone. When that request
  is rejected the \<open>catch\<close> block reports the error's message (or the fixed text when the
  message is empty) and sets \<open>isActive\<close> to false. Otherwise the stream and the session
  promise are stored.
\<close>

definition startSession :: "start_env \<Rightarrow> live_view \<Rightarrow> live_view" where
  "startSession env s =
     (let s1 = s\<lparr>error := None, status := ''Initializing...''\<rparr>;
          s2 = s1\<lparr>inputAudioContextRef := Some (new_inputCtx env),
                  audioContextRef := Some (new_outputCtx env),
                  nextStartTimeRef := currentTime (new_outputCtx env)\<rparr>
      in case getUserMedia env of
           Inl err \<Rightarrow>
             s2\<lparr>error := Some (if err_message err = [] then ''Failed to start session''
                                else err_message err),
                isActive := False\<rparr>
         | Inr stream \<Rightarrow>
             s2\<lparr>streamRef := Some stream, sessionPromiseRef := Some (connect env)\<rparr>)"

definition onopen :: "live_view \<Rightarrow> live_view" where
  "onopen s = s\<lparr>status := ''Connected'', isActive := True\<rparr>"

text \<open>
  The first block of \<open>onmessage\<close> (audio output). With audio in the message and an
  output context in the ref, the cursor is raised to the clock, a source node is created
  and started at the cursor, the cursor moves on by the buffer's duration and the node
  is added to \<open>sourcesRef\<close>. The handler awaits the decoder between raising the cursor
  and starting the node; it is taken to run to its end before the next callback runs.
\<close>

definition handle_audio :: "server_message \<Rightarrow> live_view \<Rightarrow> live_view" where
  "handle_audio msg s =
     (case inlineData msg of
        None \<Rightarrow> s
      | Some audioBuffer \<Rightarrow>
          (case audioContextRef s of
             None \<Rightarrow> s
           | Some ctx \<Rightarrow>
               (let start = max (nextStartTimeRef s) (currentTime ctx);
                    source = \<lparr>node_id = length (nodes s), buffer = audioBuffer,
                              start_when = start, stopped = False\<rparr>
                in s\<lparr>nextStartTimeRef := start + duration audioBuffer,
                     nodes := nodes s @ [source],
                     sourcesRef := set_add (node_id source) (sourcesRef s)\<rparr>)))"

text \<open>
  The second block of \<open>onmessage\<close> (interruption): every node in \<open>sourcesRef\<close> is
  stopped, the set is cleared, and with an output context in the ref the cursor is set
  to its clock.
\<close>

definition handle_interrupted :: "server_message \<Rightarrow> live_view \<Rightarrow> live_view" where
  "handle_interrupted msg s =
     (if interrupted msg then
        (let s1 = s\<lparr>nodes := map (stop_node (sourcesRef s)) (nodes s), sourcesRef := []\<rparr>
         in case audioContextRef s1 of
              None \<Rightarrow> s1
            | Some ctx \<Rightarrow> s1\<lparr>nextStartTimeRef := currentTime ctx\<rparr>)
      else s)"

definition onmessage :: "server_message \<Rightarrow> live_view \<Rightarrow> live_view" where
  "onmessage msg s = handle_interrupted msg (handle_audio msg s)"

text \<open>\<open>source.onended\<close>: the node that finished is deleted from \<open>sourcesRef\<close>.\<close>

definition source_onended :: "nat \<Rightarrow> live_view \<Rightarrow> live_view" where
  "source_onended i s = s\<lparr>sourcesRef := set_delete i (sourcesRef s)\<rparr>"

definition onclose :: "live_view \<Rightarrow> live_view" where
  "onclose s = s\<lparr>status := ''Disconnected'', isActive := False\<rparr>"

text \<open>
  \<open>stopSession\<close>: asks the session (if any) to close, stops every track of the stream,
  closes the input and the output context, sets \<open>isActive\<close> to false and forgets the
  session promise. The refs to the stream and the contexts are kept.
\<close>

definition stopSession :: "live_view \<Rightarrow> live_view" where
  "stopSession s =
     (let s1 = (case sessionPromiseRef s of
                  None \<Rightarrow> s
                | Some session \<Rightarrow> s\<lparr>closed_sessions := closed_sessions s @ [session]\<rparr>)
      in s1\<lparr>streamRef := map_option (map track_stop) (streamRef s1),
            inputAudioContextRef := map_option ctx_close (inputAudioContextRef s1),
            audioContextRef := map_option ctx_close (audioContextRef s1),
            isActive := False,
            status := ''Ready to connect'',
            sessionPromiseRef := None\<rparr>)"

definition onerror :: "live_view \<Rightarrow> live_view" where
  "onerror s = stopSession (s\<lparr>error := Some ''Connection error occurred.''\<rparr>)"

text \<open>
  \<open>updateVisualizer\<close>. The loop adds up \<open>Math.abs(data[i])\<close> from left to right and the
  sum is divided by \<open>data.length\<close>. For an empty frame JavaScript computes \<open>0 / 0\<close>, which
  is not a number: the average is \<open>None\<close> then.
\<close>

fun abs_sum :: "real \<Rightarrow> real list \<Rightarrow> real" where
  "abs_sum acc [] = acc"
| "abs_sum acc (x # xs) = abs_sum (acc + \<bar>x\<bar>) xs"

definition visualizer_avg :: "real list \<Rightarrow> real option" where
  "visualizer_avg data =
     (if length data = 0 then None else Some (abs_sum 0 data / real (length data)))"

text \<open>
  Without a canvas or a 2d context nothing happens. Otherwise the canvas is cleared and
  a circle of radius \<open>50 + avg * 500\<close> is filled; with the average not a number the
  gradient cannot be created and the canvas stays cleared.
\<close>

definition updateVisualizer :: "real list \<Rightarrow> canvas option \<Rightarrow> canvas option" where
  "updateVisualizer data cv =
     (case cv of
        None \<Rightarrow> None
      | Some c \<Rightarrow>
          if \<not> has_2d c then Some c
          else (case visualizer_avg data of
                  None \<Rightarrow> Some (c\<lparr>drawn_radius := None\<rparr>)
                | Some avg \<Rightarrow> Some (c\<lparr>drawn_radius := Some (50 + avg * 500)\<rparr>)))"

text \<open>
  \<open>onaudioprocess\<close>: the input frame is sent to the session when there is a session
  promise, and the visualizer is updated from the same frame.
\<close>

definition onaudioprocess :: "real list \<Rightarrow> live_view \<Rightarrow> live_view" where
  "onaudioprocess inputData s =
     (let s1 = (case sessionPromiseRef s of
                  None \<Rightarrow> s
                | Some session \<Rightarrow> s\<lparr>sent_frames := sent_frames s @ [inputData]\<rparr>)
      in s1\<lparr>canvasRef := updateVisualizer inputData (canvasRef s1)\<rparr>)"

text \<open>
  The output clock moves on between callbacks; a closed context's clock stands still.
\<close>

definition ctx_advance :: "real \<Rightarrow> audio_context \<Rightarrow> audio_context" where
  "ctx_advance dt c = (if ctx_closed c then c else c\<lparr>currentTime := currentTime c + dt\<rparr>)"

definition clock_advance :: "real \<Rightarrow> live_view \<Rightarrow> live_view" where
  "clock_advance dt s =
     s\<lparr>audioContextRef := map_option (ctx_advance dt) (audioContextRef s),
       inputAudioContextRef := map_option (ctx_advance dt) (inputAudioContextRef s)\<rparr>"

section \<open>Events and runs\<close>

datatype event =
    StartSession start_env
  | OnOpen
  | OnMessage server_message
  | OnClose
  | OnError
  | StopSession
  | SourceEnded nat
  | AudioProcess "real list"
  | ClockAdvance real

fun step :: "event \<Rightarrow> live_view \<Rightarrow> live_view" where
  "step (StartSession env) s = startSession env s"
| "step OnOpen s = onopen s"
| "step (OnMessage msg) s = onmessage msg s"
| "step OnClose s = onclose s"
| "step OnError s = onerror s"
| "step StopSession s = stopSession s"
| "step (SourceEnded i) s = source_onended i s"
| "step (AudioProcess inputData) s = onaudioprocess inputData s"
| "step (ClockAdvance dt) s = clock_advance dt s"

fun run :: "event list \<Rightarrow> live_view \<Rightarrow> live_view" where
  "run [] s = s"
| "run (e # es) s = run es (step e s)"

section \<open>Observations on runs\<close>

text \<open>
  The source nodes an event sequence creates, in the order of their creation: for each
  event, the nodes the browser holds after it beyond those it held before.
\<close>

fun schedule :: "event list \<Rightarrow> live_view \<Rightarrow> source_node list" where
  "schedule [] s = []"
| "schedule (e # es) s = drop (length (nodes s)) (nodes (step e s)) @ schedule es (step e s)"

text \<open>Each node starts exactly where the one before it ends.\<close>

fun back_to_back :: "source_node list \<Rightarrow> bool" where
  "back_to_back (a # b # rest) =
     (start_when b = start_when a + duration (buffer a) \<and> back_to_back (b # rest))"
| "back_to_back [a] = True"
| "back_to_back [] = True"

text \<open>No node starts before the one before it ends.\<close>

fun never_early :: "source_node list \<Rightarrow> bool" where
  "never_early (a # b # rest) =
     (start_when a + duration (buffer a) \<le> start_when b \<and> never_early (b # rest))"
| "never_early [a] = True"
| "never_early [] = True"

text \<open>
  The events of an uninterrupted stream of chunks: messages without the interruption
  flag, and the clock moving on between them.
\<close>

fun chunk_event :: "event \<Rightarrow> bool" where
  "chunk_event (OnMessage msg) = (\<not> interrupted msg)"
| "chunk_event (ClockAdvance dt) = True"
| "chunk_event e = False"

text \<open>
  A message arrives in time when the output clock has not passed the cursor yet; a run
  keeps up when every message of it arrives in time.
\<close>

fun in_time :: "event \<Rightarrow> live_view \<Rightarrow> bool" where
  "in_time (OnMessage msg) s =
     (case audioContextRef s of
        None \<Rightarrow> True
      | Some ctx \<Rightarrow> currentTime ctx \<le> nextStartTimeRef s)"
| "in_time e s = True"

fun kept_up :: "event list \<Rightarrow> live_view \<Rightarrow> bool" where
  "kept_up [] s = True"
| "kept_up (e # es) s = (in_time e s \<and> kept_up es (step e s))"

text \<open>Decoded buffers have a duration that is not negative.\<close>

fun nonneg_duration :: "event \<Rightarrow> bool" where
  "nonneg_duration (OnMessage msg) =
     (case inlineData msg of None \<Rightarrow> True | Some b \<Rightarrow> 0 \<le> duration b)"
| "nonneg_duration e = True"

text \<open>
  The events of one session: everything but a new \<open>startSession\<close>, which begins the
  next session and sets the cursor anew.
\<close>

fun session_event :: "event \<Rightarrow> bool" where
  "session_event (StartSession env) = False"
| "session_event e = nonneg_duration e"

fun is_interruption :: "event \<Rightarrow> bool" where
  "is_interruption (OnMessage msg) = interrupted msg"
| "is_interruption e = False"

definition output_clock :: "live_view \<Rightarrow> real option" where
  "output_clock s = map_option currentTime (audioContextRef s)"

text \<open>
  One step treats the cursor well when an interruption (with an output context at hand)
  leaves it at the output clock, and any other event does not lower it.
\<close>

definition cursor_step_ok :: "event \<Rightarrow> live_view \<Rightarrow> bool" where
  "cursor_step_ok e s =
     (if is_interruption e \<and> audioContextRef s \<noteq> None
      then output_clock (step e s) = Some (nextStartTimeRef (step e s))
      else nextStartTimeRef s \<le> nextStartTimeRef (step e s))"

fun cursor_ok :: "event list \<Rightarrow> live_view \<Rightarrow> bool" where
  "cursor_ok [] s = True"
| "cursor_ok (e # es) s = (cursor_step_ok e s \<and> cursor_ok es (step e s))"

text \<open>
  The references of a state are in order when a non-empty \<open>sourcesRef\<close> comes with an
  output context, every reference in \<open>sourcesRef\<close> points to a node the browser holds,
  and every node sits at the index that is its id.
\<close>

definition refs_ok :: "live_view \<Rightarrow> bool" where
  "refs_ok s =
     ((sourcesRef s = [] \<or> audioContextRef s \<noteq> None) \<and>
      list_all (\<lambda>i. i < length (nodes s)) (sourcesRef s) \<and>
      map node_id (nodes s) = [0..<length (nodes s)])"

text \<open>A reference points to a node on which \<open>stop()\<close> has been called.\<close>

definition force_stopped :: "live_view \<Rightarrow> nat \<Rightarrow> bool" where
  "force_stopped s i = (i < length (nodes s) \<and> node_id (nodes s ! i) = i \<and> stopped (nodes s ! i))"

text \<open>How a context, a track and the microphone stand after a run.\<close>

definition ctx_open :: "audio_context option \<Rightarrow> bool" where
  "ctx_open c = (case c of None \<Rightarrow> False | Some ctx \<Rightarrow> \<not> ctx_closed ctx)"

definition ctx_closed_once :: "audio_context option \<Rightarrow> bool" where
  "ctx_closed_once c =
     (case c of None \<Rightarrow> False | Some ctx \<Rightarrow> ctx_closed ctx \<and> close_calls ctx = 1)"

definition mic_live :: "live_view \<Rightarrow> bool" where
  "mic_live s =
     (case streamRef s of None \<Rightarrow> False | Some stream \<Rightarrow> list_ex (\<lambda>t. stop_calls t = 0) stream)"

definition mic_released_once :: "live_view \<Rightarrow> bool" where
  "mic_released_once s =
     (case streamRef s of None \<Rightarrow> False | Some stream \<Rightarrow> list_all (\<lambda>t. stop_calls t = 1) stream)"

section \<open>Sample inputs\<close>

definition fresh_ctx :: "audio_context" where
  "fresh_ctx = \<lparr>currentTime = 0, ctx_closed = False, close_calls = 0\<rparr>"

definition mic_granted :: "start_env" where
  "mic_granted =
     \<lparr>new_inputCtx = fresh_ctx, new_outputCtx = fresh_ctx,
      getUserMedia = Inr [\<lparr>stop_calls = 0\<rparr>], connect = 1\<rparr>"

definition mic_denied :: "start_env" where
  "mic_denied =
     \<lparr>new_inputCtx = fresh_ctx, new_outputCtx = fresh_ctx,
      getUserMedia = Inl \<lparr>err_name = ''NotAllowedError'', err_message = ''Permission denied''\<rparr>,
      connect = 1\<rparr>"

definition chunk :: "real \<Rightarrow> server_message" where
  "chunk d = \<lparr>inlineData = Some \<lparr>duration = d\<rparr>, interrupted = False\<rparr>"

definition interruption :: "server_message" where
  "interruption = \<lparr>inlineData = None, interrupted = True\<rparr>"

text \<open>An active session: started with the microphone granted, then opened.\<close>

definition active_session :: "live_view" where
  "active_session = run [StartSession mic_granted, OnOpen] init_live_view"

section \<open>The application shell\<close>

datatype app_view = DASHBOARD | LIVE | STUDIO | AUDIO_LAB | ANALYSIS

datatype view_element =
    ChatView string
  | LiveView string
  | MediaStudio string
  | AudioLab string
  | VideoAnalysis string

datatype rendering = ErrorMessage string | MainLayout "view_element list"

text \<open>
  \<open>App\<close> reads \<open>process.env.API_KEY || ''\<close> and returns the error element when the key
  is empty. Otherwise the main area holds, for each view, its component when it is the
  current one; every component receives the key as a prop.
\<close>

definition App :: "string option \<Rightarrow> app_view \<Rightarrow> rendering" where
  "App env_API_KEY currentView =
     (let apiKey = (case env_API_KEY of None \<Rightarrow> [] | Some k \<Rightarrow> k)
      in if apiKey = [] then ErrorMessage ''Error: API_KEY missing.''
         else MainLayout
           ((if currentView = DASHBOARD then [ChatView apiKey] else []) @
            (if currentView = LIVE then [LiveView apiKey] else []) @
            (if currentView = STUDIO then [MediaStudio apiKey] else []) @
            (if currentView = AUDIO_LAB then [AudioLab apiKey] else []) @
            (if currentView = ANALYSIS then [VideoAnalysis apiKey] else [])))"

definition view_for :: "app_view \<Rightarrow> string \<Rightarrow> view_element" where
  "view_for v apiKey =
     (case v of
        DASHBOARD \<Rightarrow> ChatView apiKey
      | LIVE \<Rightarrow> LiveView apiKey
      | STUDIO \<Rightarrow> MediaStudio apiKey
      | AUDIO_LAB \<Rightarrow> AudioLab apiKey
      | ANALYSIS \<Rightarrow> VideoAnalysis apiKey)"

section \<open>The chat view's controls\<close>

datatype model_type =
    PRO | FLASH | FLASH_LITE | MAPS_MODEL | IMAGE_GEN | IMAGE_EDIT | VIDEO_FAST | TTS
  | AUDIO_REALTIME

record chat_controls =
  selectedMode :: model_type
  useThinking :: bool
  useSearch :: bool
  useMaps :: bool

definition init_chat_controls :: "chat_controls" where
  "init_chat_controls =
     \<lparr>selectedMode = PRO, useThinking = False, useSearch = False, useMaps = False\<rparr>"

datatype chat_event = SelectMode model_type | ClickThinking | ClickSearch | ClickMaps

text \<open>The \<open>onChange\<close> of the model select and the \<open>onClick\<close> of the three toggles.\<close>

fun chat_step :: "chat_event \<Rightarrow> chat_controls \<Rightarrow> chat_controls" where
  "chat_step (SelectMode m) c =
     c\<lparr>selectedMode := m, useThinking := False, useSearch := False, useMaps := False\<rparr>"
| "chat_step ClickThinking c =
     c\<lparr>useThinking := \<not> useThinking c, useSearch := False, useMaps := False\<rparr>"
| "chat_step ClickSearch c =
     c\<lparr>useSearch := \<not> useSearch c, useThinking := False, useMaps := False\<rparr>"
| "chat_step ClickMaps c =
     c\<lparr>useMaps := \<not> useMaps c, useThinking := False, useSearch := False\<rparr>"

fun chat_run :: "chat_event list \<Rightarrow> chat_controls \<Rightarrow> chat_controls" where
  "chat_run [] c = c"
| "chat_run (e # es) c = chat_run es (chat_step e c)"

datatype tool = GoogleSearch | GoogleMaps

record request =
  model :: model_type
  tools :: "tool list"
  thinkingBudget :: "nat option"
  latLng :: "(real \<times> real) option"

text \<open>
  The request \<open>handleSend\<close> builds from the switches. \<open>position\<close> is what the
  geolocation lookup yields (\<open>None\<close> when there is no geolocation or the lookup fails);
  it is only asked for with \<open>useMaps\<close> on.
\<close>

definition handleSend_request :: "(real \<times> real) option \<Rightarrow> chat_controls \<Rightarrow> request" where
  "handleSend_request position c =
     (let r0 = \<lparr>model = selectedMode c, tools = [], thinkingBudget = None, latLng = None\<rparr>;
          r1 = (if useThinking c then r0\<lparr>model := PRO, thinkingBudget := Some 32768\<rparr>
                else if useSearch c then r0\<lparr>model := FLASH, tools := tools r0 @ [GoogleSearch]\<rparr>
                else if useMaps c then r0\<lparr>model := MAPS_MODEL, tools := tools r0 @ [GoogleMaps]\<rparr>
                else r0)
      in if useMaps c then r1\<lparr>latLng := position\<rparr> else r1)"

definition count_true :: "bool list \<Rightarrow> nat" where
  "count_true bs = length (filter (\<lambda>b. b) bs)"

definition active_toggles :: "chat_controls \<Rightarrow> nat" where
  "active_toggles c = count_true [useThinking c, useSearch c, useMaps c]"

definition configured_features :: "request \<Rightarrow> nat" where
  "configured_features r =
     count_true [thinkingBudget r \<noteq> None, GoogleSearch \<in> set (tools r), GoogleMaps \<in> set (tools r)]"

section \<open>Unfolding the model\<close>

lemmas sample_defs = active_session_def init_live_view_def mic_granted_def mic_denied_def
  fresh_ctx_def chunk_def interruption_def

lemmas callback_defs = startSession_def onopen_def onmessage_def handle_audio_def
  handle_interrupted_def onclose_def onerror_def stopSession_def source_onended_def
  onaudioprocess_def clock_advance_def ctx_advance_def ctx_close_def track_stop_def
  set_add_def set_delete_def stop_node_def Let_def

section \<open>Scheduling of inbound chunks\<close>

text \<open>What \<open>onmessage\<close> does to the state, case by case.\<close>

lemma handle_audio_some:
  assumes "audioContextRef s = Some ctx" and "inlineData msg = Some b"
  shows "handle_audio msg s =
           s\<lparr>nextStartTimeRef := max (nextStartTimeRef s) (currentTime ctx) + duration b,
             nodes := nodes s @ [\<lparr>node_id = length (nodes s), buffer = b,
                                  start_when = max (nextStartTimeRef s) (currentTime ctx),
                                  stopped = False\<rparr>],
             sourcesRef := set_add (length (nodes s)) (sourcesRef s)\<rparr>"
  using assms by (simp add: handle_audio_def Let_def)

lemma handle_audio_no_audio: "inlineData msg = None \<Longrightarrow> handle_audio msg s = s"
  by (simp add: handle_audio_def)

lemma handle_audio_no_ctx: "audioContextRef s = None \<Longrightarrow> handle_audio msg s = s"
  by (simp add: handle_audio_def split: option.splits)

lemma handle_interrupted_not: "\<not> interrupted msg \<Longrightarrow> handle_interrupted msg s = s"
  by (simp add: handle_interrupted_def)

lemma onmessage_chunk:
  assumes "audioContextRef s = Some ctx" and "inlineData msg = Some b" and "\<not> interrupted msg"
  shows "onmessage msg s =
           s\<lparr>nextStartTimeRef := max (nextStartTimeRef s) (currentTime ctx) + duration b,
             nodes := nodes s @ [\<lparr>node_id = length (nodes s), buffer = b,
                                  start_when = max (nextStartTimeRef s) (currentTime ctx),
                                  stopped = False\<rparr>],
             sourcesRef := set_add (length (nodes s)) (sourcesRef s)\<rparr>"
  using assms by (simp add: onmessage_def handle_interrupted_not handle_audio_some)

lemma onmessage_idle:
  assumes "inlineData msg = None \<or> audioContextRef s = None" and "\<not> interrupted msg"
  shows "onmessage msg s = s"
  using assms by (auto simp add: onmessage_def handle_interrupted_not handle_audio_no_audio handle_audio_no_ctx)

lemma clock_advance_fields:
  "nodes (clock_advance dt s) = nodes s"
  "nextStartTimeRef (clock_advance dt s) = nextStartTimeRef s"
  "(audioContextRef (clock_advance dt s) = None) = (audioContextRef s = None)"
  by (simp_all add: clock_advance_def)

lemma back_to_back_from:
  assumes "list_all chunk_event evs" and "audioContextRef s \<noteq> None" and "kept_up evs s"
    and "nextStartTimeRef s = start_when a + duration (buffer a)"
  shows "back_to_back (a # schedule evs s)"
  using assms
proof (induction evs arbitrary: s a)
  case Nil
  then show ?case by simp
next
  case (Cons e es)
  from Cons.prems(2) obtain ctx where ctx: "audioContextRef s = Some ctx" by auto
  show ?case
  proof (cases e)
    case (OnMessage msg)
    with Cons.prems(1) have ni: "\<not> interrupted msg" by simp
    show ?thesis
    proof (cases "inlineData msg")
      case None
      then have st: "step e s = s" using OnMessage ni by (simp add: onmessage_idle)
      from Cons.prems have "back_to_back (a # schedule es s)"
        using Cons.IH [of s a] st by simp
      then show ?thesis using st by simp
    next
      case (Some b)
      let ?n = "\<lparr>node_id = length (nodes s), buffer = b,
                 start_when = max (nextStartTimeRef s) (currentTime ctx), stopped = False\<rparr>"
      have st: "step e s = s\<lparr>nextStartTimeRef := max (nextStartTimeRef s) (currentTime ctx) + duration b,
             nodes := nodes s @ [?n],
             sourcesRef := set_add (length (nodes s)) (sourcesRef s)\<rparr>"
        using OnMessage onmessage_chunk [OF ctx Some ni] by simp
      have intime: "currentTime ctx \<le> nextStartTimeRef s"
        using Cons.prems(3) OnMessage ctx by simp
      have "back_to_back (?n # schedule es (step e s))"
        using Cons.prems ctx st by (intro Cons.IH) simp_all
      moreover have "start_when ?n = start_when a + duration (buffer a)"
        using intime Cons.prems(4) by simp
      ultimately show ?thesis using st by simp
    qed
  next
    case (ClockAdvance dt)
    have "back_to_back (a # schedule es (step e s))"
      using Cons.prems ClockAdvance by (intro Cons.IH) (simp_all add: clock_advance_fields)
    then show ?thesis using ClockAdvance by (simp add: clock_advance_fields)
  qed (use Cons.prems(1) in simp_all)
qed

lemma never_early_from:
  assumes "list_all chunk_event evs"
    and "start_when a + duration (buffer a) \<le> nextStartTimeRef s"
  shows "never_early (a # schedule evs s)"
  using assms
proof (induction evs arbitrary: s a)
  case Nil
  then show ?case by simp
next
  case (Cons e es)
  show ?case
  proof (cases e)
    case (OnMessage msg)
    with Cons.prems(1) have ni: "\<not> interrupted msg" by simp
    show ?thesis
    proof (cases "inlineData msg = None \<or> audioContextRef s = None")
      case True
      then have st: "step e s = s" using OnMessage ni by (simp add: onmessage_idle)
      from Cons.prems have "never_early (a # schedule es s)"
        using Cons.IH [of a s] st by simp
      then show ?thesis using st by simp
    next
      case False
      then obtain b ctx where b: "inlineData msg = Some b" and ctx: "audioContextRef s = Some ctx"
        by auto
      let ?n = "\<lparr>node_id = length (nodes s), buffer = b,
                 start_when = max (nextStartTimeRef s) (currentTime ctx), stopped = False\<rparr>"
      have st: "step e s = s\<lparr>nextStartTimeRef := max (nextStartTimeRef s) (currentTime ctx) + duration b,
             nodes := nodes s @ [?n],
             sourcesRef := set_add (length (nodes s)) (sourcesRef s)\<rparr>"
        using OnMessage onmessage_chunk [OF ctx b ni] by simp
      have "never_early (?n # schedule es (step e s))"
        using Cons.prems st by (intro Cons.IH) simp_all
      moreover have "start_when a + duration (buffer a) \<le> start_when ?n"
        using Cons.prems(2) by simp
      ultimately show ?thesis using st by simp
    qed
  next
    case (ClockAdvance dt)
    have "never_early (a # schedule es (step e s))"
      using Cons.prems ClockAdvance by (intro Cons.IH) (simp_all add: clock_advance_fields)
    then show ?thesis using ClockAdvance by (simp add: clock_advance_fields)
  qed (use Cons.prems(1) in simp_all)
qed

lemma starts_sorted_from:
  assumes "list_all chunk_event evs" and "list_all nonneg_duration evs"
    and "t \<le> nextStartTimeRef s"
  shows "sorted (t # map start_when (schedule evs s))"
  using assms
proof (induction evs arbitrary: s t)
  case Nil
  then show ?case by simp
next
  case (Cons e es)
  show ?case
  proof (cases e)
    case (OnMessage msg)
    with Cons.prems(1) have ni: "\<not> interrupted msg" by simp
    show ?thesis
    proof (cases "inlineData msg = None \<or> audioContextRef s = None")
      case True
      then have st: "step e s = s" using OnMessage ni by (simp add: onmessage_idle)
      from Cons.prems have "sorted (t # map start_when (schedule es s))"
        using Cons.IH [of t s] st by simp
      then show ?thesis using st by simp
    next
      case False
      then obtain b ctx where b: "inlineData msg = Some b" and ctx: "audioContextRef s = Some ctx"
        by auto
      let ?t = "max (nextStartTimeRef s) (currentTime ctx)"
      let ?n = "\<lparr>node_id = length (nodes s), buffer = b, start_when = ?t, stopped = False\<rparr>"
      have st: "step e s = s\<lparr>nextStartTimeRef := ?t + duration b,
             nodes := nodes s @ [?n],
             sourcesRef := set_add (length (nodes s)) (sourcesRef s)\<rparr>"
        using OnMessage onmessage_chunk [OF ctx b ni] by simp
      have d: "0 \<le> duration b" using Cons.prems(2) OnMessage b by simp
      have "sorted (?t # map start_when (schedule es (step e s)))"
        using Cons.prems st d by (intro Cons.IH) simp_all
      moreover have "t \<le> ?t" using Cons.prems(3) by simp
      ultimately have "sorted (t # ?t # map start_when (schedule es (step e s)))"
        by auto
      then show ?thesis using st by simp
    qed
  next
    case (ClockAdvance dt)
    have "sorted (t # map start_when (schedule es (step e s)))"
      using Cons.prems ClockAdvance by (intro Cons.IH) (simp_all add: clock_advance_fields)
    then show ?thesis using ClockAdvance by (simp add: clock_advance_fields)
  qed (use Cons.prems(1) in simp_all)
qed

text \<open>
  C1 (amended). A stream of chunks processed with no interruption signal, on a session
  with an output context: the first chunk starts at the larger of the cursor and the
  output clock; no later chunk starts before the end of the one before it; with
  durations that are not negative the start times never decrease; and when every later
  chunk arrives while the output clock has not passed the cursor, the start times are
  exactly back-to-back, \<open>start (n+1) = start n + duration n\<close>.
\<close>

theorem chunks_back_to_back_when_in_time:
  assumes "audioContextRef s = Some ctx" and "inlineData msg = Some b" and "\<not> interrupted msg"
    and "list_all chunk_event evs"
  shows "schedule (OnMessage msg # evs) s \<noteq> []
       \<and> start_when (hd (schedule (OnMessage msg # evs) s)) = max (nextStartTimeRef s) (currentTime ctx)
       \<and> never_early (schedule (OnMessage msg # evs) s)
       \<and> (list_all nonneg_duration (OnMessage msg # evs) \<longrightarrow>
            sorted (map start_when (schedule (OnMessage msg # evs) s)))
       \<and> (kept_up evs (onmessage msg s) \<longrightarrow> back_to_back (schedule (OnMessage msg # evs) s))"
proof -
  let ?t = "max (nextStartTimeRef s) (currentTime ctx)"
  let ?n = "\<lparr>node_id = length (nodes s), buffer = b, start_when = ?t, stopped = False\<rparr>"
  let ?s' = "onmessage msg s"
  have st: "?s' = s\<lparr>nextStartTimeRef := ?t + duration b, nodes := nodes s @ [?n],
             sourcesRef := set_add (length (nodes s)) (sourcesRef s)\<rparr>"
    using onmessage_chunk [OF assms(1,2,3)] .
  have sch: "schedule (OnMessage msg # evs) s = ?n # schedule evs ?s'"
    by (simp add: st)
  have ne: "never_early (?n # schedule evs ?s')"
    using assms(4) by (intro never_early_from) (simp_all add: st)
  have so: "sorted (map start_when (?n # schedule evs ?s'))"
    if "list_all nonneg_duration (OnMessage msg # evs)"
  proof -
    have "0 \<le> duration b" using that assms(2) by simp
    then have "sorted (?t # map start_when (schedule evs ?s'))"
      using that assms(4) by (intro starts_sorted_from) (simp_all add: st)
    then show ?thesis by simp
  qed
  have bb: "back_to_back (?n # schedule evs ?s')" if "kept_up evs ?s'"
    using assms(1,4) that by (intro back_to_back_from) (simp_all add: st)
  show ?thesis
    unfolding sch using ne so bb by simp
qed

text \<open>
  The instance of C1 (amended) at the scenario of the specification, on a session just
  opened (\<open>t0 = 0\<close>): chunks of 200 ms, 150 ms and 300 ms with no delay between them are
  scheduled back-to-back, at 0, 200 ms and 350 ms.
\<close>

theorem chunks_back_to_back_when_in_time_witness:
  "audioContextRef active_session = Some fresh_ctx
   \<and> inlineData (chunk (1/5)) = Some \<lparr>duration = 1/5\<rparr> \<and> \<not> interrupted (chunk (1/5))
   \<and> list_all chunk_event [OnMessage (chunk (3/20)), OnMessage (chunk (3/10))]
   \<and> kept_up [OnMessage (chunk (3/20)), OnMessage (chunk (3/10))] (onmessage (chunk (1/5)) active_session)
   \<and> back_to_back (schedule [OnMessage (chunk (1/5)), OnMessage (chunk (3/20)), OnMessage (chunk (3/10))] active_session)
   \<and> map start_when (schedule [OnMessage (chunk (1/5)), OnMessage (chunk (3/20)), OnMessage (chunk (3/10))] active_session) = [0, 1/5, 7/20]"
proof -
  have h1: "audioContextRef active_session = Some fresh_ctx"
    by (simp add: sample_defs callback_defs)
  have h2: "inlineData (chunk (1/5)) = Some \<lparr>duration = 1/5\<rparr>" by (simp add: chunk_def)
  have h3: "\<not> interrupted (chunk (1/5))" by (simp add: chunk_def)
  have h4: "list_all chunk_event [OnMessage (chunk (3/20)), OnMessage (chunk (3/10))]"
    by (simp add: chunk_def)
  have h5: "kept_up [OnMessage (chunk (3/20)), OnMessage (chunk (3/10))] (onmessage (chunk (1/5)) active_session)"
    by (simp add: sample_defs callback_defs)
  have h6: "map start_when (schedule [OnMessage (chunk (1/5)), OnMessage (chunk (3/20)), OnMessage (chunk (3/10))] active_session) = [0, 1/5, 7/20]"
    by (simp add: sample_defs callback_defs)
  from chunks_back_to_back_when_in_time [OF h1 h2 h3 h4] h5
  have "back_to_back (schedule [OnMessage (chunk (1/5)), OnMessage (chunk (3/20)), OnMessage (chunk (3/10))] active_session)"
    by blast
  with h1 h2 h3 h4 h5 h6 show ?thesis by blast
qed

text \<open>
  C1 as stated fails when a chunk is late. On a session just opened a chunk of 200 ms
  is scheduled at 0 and the cursor moves to 0.2; the output clock then moves to 1; the
  next chunk is clamped to the clock and starts at 1, not at 0.2. No interruption
  signal is involved.
\<close>

theorem late_chunk_not_back_to_back:
  "list_all chunk_event [OnMessage (chunk (1/5)), ClockAdvance 1, OnMessage (chunk (3/20))]
   \<and> \<not> back_to_back
        (schedule [OnMessage (chunk (1/5)), ClockAdvance 1, OnMessage (chunk (3/20))] active_session)"
  by (simp add: sample_defs callback_defs)

text \<open>
  The scenario of the specification for any \<open>t0\<close>: with \<open>t0\<close> the larger of the cursor and
  the output clock when the first chunk arrives, chunks of 200 ms, 150 ms and 300 ms
  with no delay start at \<open>t0\<close>, \<open>t0 + 200 ms\<close> and \<open>t0 + 350 ms\<close>.
\<close>

lemma scenario_200_150_300:
  assumes "audioContextRef s = Some ctx"
  shows "map start_when
           (schedule [OnMessage (chunk (200/1000)), OnMessage (chunk (150/1000)), OnMessage (chunk (300/1000))] s)
         = [max (nextStartTimeRef s) (currentTime ctx),
            max (nextStartTimeRef s) (currentTime ctx) + 200/1000,
            max (nextStartTimeRef s) (currentTime ctx) + 350/1000]"
  using assms by (simp add: chunk_def callback_defs)

section \<open>Start time and cursor of one chunk\<close>

text \<open>
  C2 (amended). With an output context in the ref, a message that carries audio creates
  exactly one source node, started at \<open>max cursor outputClockNow\<close>; the scheduling block
  leaves the cursor at that start plus the decoded duration; the start is never before
  the output clock. The cursor's initial value is the clock of the output context at
  the moment \<open>startSession\<close> creates it, before the microphone request and the connect
  call; the open callback \<open>onopen\<close> leaves the cursor as it is.
\<close>

theorem chunk_start_is_max_of_cursor_and_clock:
  assumes "audioContextRef s = Some ctx" and "inlineData msg = Some b"
  shows "schedule [OnMessage msg] s =
           [\<lparr>node_id = length (nodes s), buffer = b,
             start_when = max (nextStartTimeRef s) (currentTime ctx), stopped = interrupted msg\<rparr>]
         \<and> nextStartTimeRef (handle_audio msg s) =
             max (nextStartTimeRef s) (currentTime ctx) + duration b
         \<and> currentTime ctx \<le> max (nextStartTimeRef s) (currentTime ctx)
         \<and> nextStartTimeRef (startSession env s0) = currentTime (new_outputCtx env)
         \<and> output_clock (startSession env s0) = Some (nextStartTimeRef (startSession env s0))
         \<and> nextStartTimeRef (onopen s1) = nextStartTimeRef s1
         \<and> output_clock (onopen s1) = output_clock s1"
  using assms
  by (auto simp add: handle_audio_some onmessage_def handle_interrupted_def startSession_def
      onopen_def output_clock_def Let_def stop_node_def set_add_def split: sum.splits)

text \<open>
  C2 (amended) at a concrete input: two seconds after the session opened, with the
  cursor still at 0, a chunk of 200 ms starts at 2 and moves the cursor to 2.2; the
  cursor was set to 0, the clock of the fresh output context, by \<open>startSession\<close>.
\<close>

theorem chunk_start_is_max_of_cursor_and_clock_witness:
  "audioContextRef (clock_advance 2 active_session) = Some (fresh_ctx\<lparr>currentTime := 2\<rparr>)
   \<and> inlineData (chunk (1/5)) = Some \<lparr>duration = 1/5\<rparr>
   \<and> map start_when (schedule [OnMessage (chunk (1/5))] (clock_advance 2 active_session)) = [2]
   \<and> nextStartTimeRef (handle_audio (chunk (1/5)) (clock_advance 2 active_session)) = 11/5
   \<and> nextStartTimeRef (startSession mic_granted init_live_view) = 0
   \<and> output_clock (startSession mic_granted init_live_view) = Some 0"
proof -
  have h1: "audioContextRef (clock_advance 2 active_session) = Some (fresh_ctx\<lparr>currentTime := 2\<rparr>)"
    by (simp add: sample_defs callback_defs)
  have h2: "inlineData (chunk (1/5)) = Some \<lparr>duration = 1/5\<rparr>" by (simp add: chunk_def)
  have h3: "nextStartTimeRef (clock_advance 2 active_session) = 0"
    by (simp add: sample_defs callback_defs)
  show ?thesis
    using h1 h2 chunk_start_is_max_of_cursor_and_clock [OF h1 h2, of mic_granted init_live_view]
    by (simp add: h3 fresh_ctx_def mic_granted_def)
qed

text \<open>
  C2 as stated fails in its clause on the initial value. The cursor is set when
  \<open>startSession\<close> creates the output context; the microphone request and the connect
  call follow, and the connection opens later. With the session started at clock 0 and
  the connection opening five seconds later, the cursor at connection open is 0 while
  the output clock is 5.
\<close>

theorem cursor_at_open_is_not_the_clock:
  "isActive (run [StartSession mic_granted, ClockAdvance 5, OnOpen] init_live_view)
   \<and> nextStartTimeRef (run [StartSession mic_granted, ClockAdvance 5, OnOpen] init_live_view) = 0
   \<and> output_clock (run [StartSession mic_granted, ClockAdvance 5, OnOpen] init_live_view) = Some 5
   \<and> output_clock (run [StartSession mic_granted, ClockAdvance 5, OnOpen] init_live_view)
       \<noteq> Some (nextStartTimeRef (run [StartSession mic_granted, ClockAdvance 5, OnOpen] init_live_view))"
  by (simp add: sample_defs callback_defs output_clock_def)

section \<open>Interruption\<close>

text \<open>
  The references stay in order along every run: \<open>startSession\<close> is the only writer of
  \<open>audioContextRef\<close> and stores a context, nodes are only appended, and \<open>sourcesRef\<close> only
  ever receives the id of the node just appended.
\<close>

lemma refs_ok_init: "refs_ok init_live_view"
  by (simp add: refs_ok_def init_live_view_def)

lemma refs_ok_handle_audio: "refs_ok s \<Longrightarrow> refs_ok (handle_audio msg s)"
proof (cases "inlineData msg = None \<or> audioContextRef s = None")
  case True
  assume "refs_ok s"
  with True show ?thesis by (auto simp add: handle_audio_no_audio handle_audio_no_ctx)
next
  case False
  assume ok: "refs_ok s"
  from False obtain b ctx where b: "inlineData msg = Some b" and ctx: "audioContextRef s = Some ctx"
    by auto
  have "list_all (\<lambda>i. i < Suc (length (nodes s))) (sourcesRef s)"
    using ok by (auto simp add: refs_ok_def list_all_iff)
  then show ?thesis
    using ok ctx by (simp add: handle_audio_some [OF ctx b] refs_ok_def set_add_def)
qed

lemma node_id_stop_node: "node_id (stop_node ids n) = node_id n"
  by (simp add: stop_node_def)

lemma refs_ok_handle_interrupted: "refs_ok s \<Longrightarrow> refs_ok (handle_interrupted msg s)"
  by (simp add: handle_interrupted_def refs_ok_def Let_def node_id_stop_node o_def
      split: option.splits)

lemma refs_ok_step: "refs_ok s \<Longrightarrow> refs_ok (step e s)"
proof (cases e)
  case (OnMessage msg)
  assume "refs_ok s"
  then show ?thesis
    using OnMessage by (simp add: onmessage_def refs_ok_handle_audio refs_ok_handle_interrupted)
next
  case (SourceEnded i)
  assume "refs_ok s"
  then show ?thesis
    using SourceEnded by (auto simp add: refs_ok_def source_onended_def set_delete_def list_all_iff)
next
  case (StartSession env)
  assume "refs_ok s"
  then show ?thesis
    using StartSession by (simp add: refs_ok_def startSession_def Let_def split: sum.splits)
next
  case StopSession
  assume "refs_ok s"
  then show ?thesis
    using StopSession by (auto simp add: refs_ok_def stopSession_def Let_def split: option.splits)
next
  case OnError
  assume "refs_ok s"
  then show ?thesis
    using OnError by (auto simp add: refs_ok_def onerror_def stopSession_def Let_def split: option.splits)
next
  case (AudioProcess d)
  assume "refs_ok s"
  then show ?thesis
    using AudioProcess by (auto simp add: refs_ok_def onaudioprocess_def Let_def split: option.splits)
qed (simp_all add: refs_ok_def onopen_def onclose_def clock_advance_def)

lemma refs_ok_run: "refs_ok s \<Longrightarrow> refs_ok (run evs s)"
  by (induction evs arbitrary: s) (simp_all add: refs_ok_step)

lemma handle_audio_keeps:
  "audioContextRef (handle_audio msg s) = audioContextRef s"
  "set (sourcesRef s) \<subseteq> set (sourcesRef (handle_audio msg s))"
  "length (nodes s) \<le> length (nodes (handle_audio msg s))"
  by (auto simp add: handle_audio_def Let_def set_add_def split: option.splits)

lemma interrupted_result:
  assumes "refs_ok s" and "audioContextRef s = Some ctx" and "interrupted msg"
  shows "sourcesRef (handle_interrupted msg s) = []"
    and "audioContextRef (handle_interrupted msg s) = Some ctx"
    and "nextStartTimeRef (handle_interrupted msg s) = currentTime ctx"
    and "list_all (force_stopped (handle_interrupted msg s)) (sourcesRef s)"
proof -
  show "sourcesRef (handle_interrupted msg s) = []"
    and "audioContextRef (handle_interrupted msg s) = Some ctx"
    and "nextStartTimeRef (handle_interrupted msg s) = currentTime ctx"
    using assms(2,3) by (simp_all add: handle_interrupted_def Let_def)
  have ids: "\<And>i. i < length (nodes s) \<Longrightarrow> node_id (nodes s ! i) = i"
  proof -
    fix i assume i: "i < length (nodes s)"
    have "map node_id (nodes s) ! i = [0..<length (nodes s)] ! i"
      using assms(1) by (simp add: refs_ok_def)
    then show "node_id (nodes s ! i) = i" using i by simp
  qed
  have "\<And>i. i \<in> set (sourcesRef s) \<Longrightarrow> force_stopped (handle_interrupted msg s) i"
  proof -
    fix i assume i: "i \<in> set (sourcesRef s)"
    then have lt: "i < length (nodes s)" using assms(1) by (auto simp add: refs_ok_def list_all_iff)
    then show "force_stopped (handle_interrupted msg s) i"
      using assms(2,3) i ids [OF lt]
      by (simp add: force_stopped_def handle_interrupted_def Let_def stop_node_def)
  qed
  then show "list_all (force_stopped (handle_interrupted msg s)) (sourcesRef s)"
    by (simp add: list_all_iff)
qed

text \<open>
  C3. In every state a run of the component can reach in which \<open>sourcesRef\<close> is not
  empty, handling a message with the interruption flag leaves \<open>sourcesRef\<close> empty and the
  cursor equal to the clock of the output context, and \<open>stop()\<close> has been called on every
  node that was pending, however many there were.
\<close>

theorem interruption_clears_schedule_and_resets_cursor:
  assumes "sourcesRef (run evs init_live_view) \<noteq> []" and "interrupted msg"
  shows "sourcesRef (onmessage msg (run evs init_live_view)) = []
       \<and> (\<exists>ctx. audioContextRef (run evs init_live_view) = Some ctx
                \<and> audioContextRef (onmessage msg (run evs init_live_view)) = Some ctx
                \<and> nextStartTimeRef (onmessage msg (run evs init_live_view)) = currentTime ctx)
       \<and> list_all (force_stopped (onmessage msg (run evs init_live_view)))
            (sourcesRef (run evs init_live_view))"
proof -
  let ?s = "run evs init_live_view"
  let ?s1 = "handle_audio msg ?s"
  have ok: "refs_ok ?s" by (simp add: refs_ok_run refs_ok_init)
  with assms(1) obtain ctx where ctx: "audioContextRef ?s = Some ctx"
    by (auto simp add: refs_ok_def)
  have ok1: "refs_ok ?s1" using ok by (rule refs_ok_handle_audio)
  have ctx1: "audioContextRef ?s1 = Some ctx" using ctx by (simp add: handle_audio_keeps)
  note r = interrupted_result [OF ok1 ctx1 assms(2)]
  have "list_all (force_stopped (handle_interrupted msg ?s1)) (sourcesRef ?s)"
    using r(4) handle_audio_keeps(2) [of ?s msg] by (auto simp add: list_all_iff)
  then show ?thesis
    using r(1,2,3) ctx by (simp add: onmessage_def)
qed

text \<open>
  C3 at a concrete input: two chunks are pending when the interruption arrives a tenth
  of a second into the session; both are stopped, none is left, the cursor is 0.1.
\<close>

theorem interruption_clears_schedule_and_resets_cursor_witness:
  "sourcesRef (run [StartSession mic_granted, OnOpen, OnMessage (chunk (1/5)), OnMessage (chunk (3/20)), ClockAdvance (1/10)] init_live_view) = [0, 1]
   \<and> interrupted interruption
   \<and> sourcesRef (onmessage interruption (run [StartSession mic_granted, OnOpen, OnMessage (chunk (1/5)), OnMessage (chunk (3/20)), ClockAdvance (1/10)] init_live_view)) = []
   \<and> nextStartTimeRef (onmessage interruption (run [StartSession mic_granted, OnOpen, OnMessage (chunk (1/5)), OnMessage (chunk (3/20)), ClockAdvance (1/10)] init_live_view)) = 1/10
   \<and> list_all (force_stopped (onmessage interruption (run [StartSession mic_granted, OnOpen, OnMessage (chunk (1/5)), OnMessage (chunk (3/20)), ClockAdvance (1/10)] init_live_view))) [0, 1]"
proof -
  let ?evs = "[StartSession mic_granted, OnOpen, OnMessage (chunk (1/5)), OnMessage (chunk (3/20)), ClockAdvance (1/10)]"
  have h0: "sourcesRef (run ?evs init_live_view) = [0, 1]"
    by (simp add: sample_defs callback_defs)
  then have h1: "sourcesRef (run ?evs init_live_view) \<noteq> []" by simp
  have h2: "interrupted interruption" by (simp add: interruption_def)
  have h3: "audioContextRef (run ?evs init_live_view) = Some (fresh_ctx\<lparr>currentTime := 1/10\<rparr>)"
    by (simp add: sample_defs callback_defs)
  from interruption_clears_schedule_and_resets_cursor [OF h1 h2] h0 h2 h3 show ?thesis by (auto simp add: fresh_ctx_def)
qed

section \<open>The cursor along a session\<close>

lemma handle_audio_cursor:
  assumes "case inlineData msg of None \<Rightarrow> True | Some b \<Rightarrow> 0 \<le> duration b"
  shows "nextStartTimeRef s \<le> nextStartTimeRef (handle_audio msg s)"
  using assms by (auto simp add: handle_audio_def Let_def split: option.splits)

lemma cursor_step_ok_session:
  assumes "session_event e"
  shows "cursor_step_ok e s"
proof (cases e)
  case (OnMessage msg)
  have d: "case inlineData msg of None \<Rightarrow> True | Some b \<Rightarrow> 0 \<le> duration b"
    using assms OnMessage by simp
  show ?thesis
  proof (cases "interrupted msg")
    case False
    then show ?thesis
      using OnMessage handle_audio_cursor [OF d, of s]
      by (simp add: cursor_step_ok_def onmessage_def handle_interrupted_not)
  next
    case True
    show ?thesis
    proof (cases "audioContextRef s")
      case None
      then show ?thesis
        using OnMessage True
        by (simp add: cursor_step_ok_def onmessage_def handle_audio_no_ctx handle_interrupted_def)
    next
      case (Some ctx)
      then have "audioContextRef (handle_audio msg s) = Some ctx"
        by (simp add: handle_audio_keeps)
      then show ?thesis
        using OnMessage True Some
        by (simp add: cursor_step_ok_def onmessage_def handle_interrupted_def output_clock_def Let_def)
    qed
  qed
next
  case (StartSession env)
  then show ?thesis using assms by simp
qed (simp_all add: cursor_step_ok_def onopen_def onclose_def onerror_def stopSession_def
       source_onended_def onaudioprocess_def clock_advance_def Let_def split: option.splits)

text \<open>
  C4. Along every sequence of events of one session (messages with or without audio
  and with or without the interruption flag, the clock moving on, nodes ending, input
  frames, open, close, error and stop) no event lowers the cursor
  \<open>nextStartTimeRef\<close>, except a message with the interruption flag, which (with an output
  context in the ref) leaves the cursor exactly at the output clock.
\<close>

theorem cursor_monotone_except_interruption:
  assumes "list_all session_event evs"
  shows "cursor_ok evs s"
  using assms
  by (induction evs arbitrary: s) (simp_all add: cursor_step_ok_session)

text \<open>
  C4 at a concrete input: the cursor goes 0, 0.2, 0.2, then back to the clock 0.1 at
  the interruption, then 0.25.
\<close>

theorem cursor_monotone_except_interruption_witness:
  "list_all session_event [OnOpen, OnMessage (chunk (1/5)), ClockAdvance (1/10), OnMessage interruption, OnMessage (chunk (3/20))]
   \<and> cursor_ok [OnOpen, OnMessage (chunk (1/5)), ClockAdvance (1/10), OnMessage interruption, OnMessage (chunk (3/20))] (startSession mic_granted init_live_view)
   \<and> map (\<lambda>evs. nextStartTimeRef (run evs (startSession mic_granted init_live_view)))
        [[OnOpen], [OnOpen, OnMessage (chunk (1/5))], [OnOpen, OnMessage (chunk (1/5)), ClockAdvance (1/10)],
         [OnOpen, OnMessage (chunk (1/5)), ClockAdvance (1/10), OnMessage interruption],
         [OnOpen, OnMessage (chunk (1/5)), ClockAdvance (1/10), OnMessage interruption, OnMessage (chunk (3/20))]]
      = [0, 1/5, 1/5, 1/10, 1/4]"
proof -
  have h: "list_all session_event [OnOpen, OnMessage (chunk (1/5)), ClockAdvance (1/10), OnMessage interruption, OnMessage (chunk (3/20))]"
    by (simp add: chunk_def interruption_def)
  have v: "map (\<lambda>evs. nextStartTimeRef (run evs (startSession mic_granted init_live_view)))
        [[OnOpen], [OnOpen, OnMessage (chunk (1/5))], [OnOpen, OnMessage (chunk (1/5)), ClockAdvance (1/10)],
         [OnOpen, OnMessage (chunk (1/5)), ClockAdvance (1/10), OnMessage interruption],
         [OnOpen, OnMessage (chunk (1/5)), ClockAdvance (1/10), OnMessage interruption, OnMessage (chunk (3/20))]]
      = [0, 1/5, 1/5, 1/10, 1/4]"
    by (simp add: sample_defs callback_defs)
  from cursor_monotone_except_interruption [OF h, of "startSession mic_granted init_live_view"] h v show ?thesis by blast
qed

section \<open>Stopping a session\<close>

text \<open>
  What \<open>stopSession\<close> releases. From a state with a live microphone stream and two open
  contexts that were never closed, it stops every track once, closes each context once,
  sets \<open>isActive\<close> to false and forgets the session promise. \<open>onerror\<close> is \<open>stopSession\<close>
  with the error text set. Neither touches \<open>sourcesRef\<close> or the nodes.
\<close>

lemma stopSession_releases_once:
  assumes "streamRef s = Some stream" and "list_all (\<lambda>t. stop_calls t = 0) stream"
    and "inputAudioContextRef s = Some ci" and "\<not> ctx_closed ci" and "close_calls ci = 0"
    and "audioContextRef s = Some co" and "\<not> ctx_closed co" and "close_calls co = 0"
  shows "\<not> isActive (stopSession s) \<and> mic_released_once (stopSession s)
       \<and> ctx_closed_once (inputAudioContextRef (stopSession s))
       \<and> ctx_closed_once (audioContextRef (stopSession s))
       \<and> sessionPromiseRef (stopSession s) = None"
  using assms
  by (auto simp add: stopSession_def Let_def mic_released_once_def ctx_closed_once_def
      ctx_close_def track_stop_def list_all_iff split: option.splits)

lemma stopSession_keeps_sources:
  "sourcesRef (stopSession s) = sourcesRef s \<and> nodes (stopSession s) = nodes s"
  by (simp add: stopSession_def Let_def split: option.splits)

lemma onerror_as_stop:
  "onerror s = (stopSession s)\<lparr>error := Some ''Connection error occurred.''\<rparr>"
  by (simp add: onerror_def stopSession_def Let_def split: option.splits)

lemma onerror_releases_once:
  assumes "streamRef s = Some stream" and "list_all (\<lambda>t. stop_calls t = 0) stream"
    and "inputAudioContextRef s = Some ci" and "\<not> ctx_closed ci" and "close_calls ci = 0"
    and "audioContextRef s = Some co" and "\<not> ctx_closed co" and "close_calls co = 0"
  shows "\<not> isActive (onerror s) \<and> mic_released_once (onerror s)
       \<and> ctx_closed_once (inputAudioContextRef (onerror s))
       \<and> ctx_closed_once (audioContextRef (onerror s))
       \<and> sessionPromiseRef (onerror s) = None
       \<and> error (onerror s) = Some ''Connection error occurred.''"
  using stopSession_releases_once [OF assms]
  by (simp add: onerror_as_stop mic_released_once_def)

text \<open>
  C5, evaluated where it fails. On an active session the remote close callback
  \<open>onclose\<close> sets \<open>isActive\<close> to false and nothing else: the microphone track is still
  live and both contexts are still open. And after \<open>stopSession\<close> on an active session
  with one chunk pending, the chunk's node is still in \<open>sourcesRef\<close> and \<open>stop()\<close> was not
  called on it.
\<close>

theorem remote_close_leaves_resources_open:
  "isActive active_session
   \<and> \<not> isActive (onclose active_session)
   \<and> mic_live (onclose active_session)
   \<and> ctx_open (inputAudioContextRef (onclose active_session))
   \<and> ctx_open (audioContextRef (onclose active_session))
   \<and> sourcesRef (stopSession (onmessage (chunk (1/5)) active_session)) = [0]
   \<and> \<not> force_stopped (stopSession (onmessage (chunk (1/5)) active_session)) 0"
  by (simp add: sample_defs callback_defs mic_live_def ctx_open_def force_stopped_def)

section \<open>Failure of the microphone request\<close>

text \<open>
  C6, evaluated where it fails. When the microphone request is rejected, \<open>startSession\<close>
  reports the error and sets \<open>isActive\<close> to false, but the two contexts it has just
  created stay open in their refs.
\<close>

theorem start_failure_leaves_contexts_open:
  "error (startSession mic_denied init_live_view) = Some ''Permission denied''
   \<and> \<not> isActive (startSession mic_denied init_live_view)
   \<and> ctx_open (inputAudioContextRef (startSession mic_denied init_live_view))
   \<and> ctx_open (audioContextRef (startSession mic_denied init_live_view))"
  by (simp add: sample_defs callback_defs ctx_open_def)

text \<open>
  C7. When the microphone request of \<open>startSession\<close> is rejected (permission denied,
  no device, or any other error), the error shown is the message of that rejection, or
  \<open>Failed to start session\<close> when the message is empty, and the session is inactive:
  \<open>isActive\<close> is false, and the refs of the stream and of the session promise are as
  they were before the start (empty on a first start).
\<close>

theorem mic_failure_reports_error_and_stays_inactive:
  assumes "getUserMedia env = Inl err"
  shows "error (startSession env s) =
           Some (if err_message err = [] then ''Failed to start session'' else err_message err)
         \<and> \<not> isActive (startSession env s)
         \<and> sessionPromiseRef (startSession env s) = sessionPromiseRef s
         \<and> streamRef (startSession env s) = streamRef s"
  using assms by (simp add: startSession_def Let_def)

text \<open>C7 at a concrete input: permission denied on the first start.\<close>

theorem mic_failure_reports_error_and_stays_inactive_witness:
  "getUserMedia mic_denied = Inl \<lparr>err_name = ''NotAllowedError'', err_message = ''Permission denied''\<rparr>
   \<and> error (startSession mic_denied init_live_view) = Some ''Permission denied''
   \<and> \<not> isActive (startSession mic_denied init_live_view)
   \<and> sessionPromiseRef (startSession mic_denied init_live_view) = None
   \<and> streamRef (startSession mic_denied init_live_view) = None"
proof -
  have h: "getUserMedia mic_denied = Inl \<lparr>err_name = ''NotAllowedError'', err_message = ''Permission denied''\<rparr>"
    by (simp add: mic_denied_def)
  from mic_failure_reports_error_and_stays_inactive [OF h, of init_live_view] h show ?thesis
    by (simp add: init_live_view_def)
qed

section \<open>The API key\<close>

text \<open>
  C8. With the API key absent (undefined or the empty string) \<open>App\<close> renders the error
  text and nothing else: no view, hence no component that could make a remote call.
  With a key (a non-empty string) it renders the main layout with exactly the current
  view, which receives the key.
\<close>

theorem missing_api_key_renders_error_only:
  "App None v = ErrorMessage ''Error: API_KEY missing.''
   \<and> App (Some []) v = ErrorMessage ''Error: API_KEY missing.''
   \<and> App (Some (c # cs)) v = MainLayout [view_for v (c # cs)]"
  by (cases v) (simp_all add: App_def view_for_def)

text \<open>C8 at a concrete input: the live view, without a key and with the key \<open>key\<close>.\<close>

theorem missing_api_key_renders_error_only_witness:
  "App None LIVE = ErrorMessage ''Error: API_KEY missing.''
   \<and> App (Some []) LIVE = ErrorMessage ''Error: API_KEY missing.''
   \<and> App (Some ''key'') LIVE = MainLayout [LiveView ''key'']"
  using missing_api_key_renders_error_only [of LIVE "CHR ''k''" "''ey''"]
  by (simp add: view_for_def)

section \<open>The visualizer\<close>

lemma abs_sum_eq: "abs_sum acc xs = acc + sum_list (map abs xs)"
  by (induction xs arbitrary: acc) simp_all

text \<open>
  C9. For every input frame that is not empty, the average \<open>updateVisualizer\<close> computes
  is the sum of the absolute sample values divided by the number of samples; on a
  canvas with a 2d context it is drawn as a circle of radius \<open>50 + avg * 500\<close>.
  \<open>onaudioprocess\<close> draws exactly that for the frame it receives: with such a canvas in
  \<open>canvasRef\<close>, the canvas afterwards shows the circle of this frame's average, and in
  any case the canvas is what \<open>updateVisualizer\<close> makes of the frame. The callback
  leaves the cursor, \<open>sourcesRef\<close>, the nodes, the session promise, the microphone stream,
  both contexts, \<open>isActive\<close>, the status and the error as they were.
\<close>

theorem visualizer_loudness_is_mean_abs:
  assumes "data \<noteq> []" and "has_2d c"
  shows "visualizer_avg data = Some (sum_list (map abs data) / real (length data))
       \<and> updateVisualizer data (Some c) =
           Some (c\<lparr>drawn_radius := Some (50 + (sum_list (map abs data) / real (length data)) * 500)\<rparr>)
       \<and> canvasRef (onaudioprocess data s) = updateVisualizer data (canvasRef s)
       \<and> canvasRef (onaudioprocess data (s\<lparr>canvasRef := Some c\<rparr>)) =
           Some (c\<lparr>drawn_radius := Some (50 + (sum_list (map abs data) / real (length data)) * 500)\<rparr>)
       \<and> nextStartTimeRef (onaudioprocess data s) = nextStartTimeRef s
       \<and> sourcesRef (onaudioprocess data s) = sourcesRef s
       \<and> nodes (onaudioprocess data s) = nodes s
       \<and> sessionPromiseRef (onaudioprocess data s) = sessionPromiseRef s
       \<and> streamRef (onaudioprocess data s) = streamRef s
       \<and> audioContextRef (onaudioprocess data s) = audioContextRef s
       \<and> inputAudioContextRef (onaudioprocess data s) = inputAudioContextRef s
       \<and> isActive (onaudioprocess data s) = isActive s
       \<and> status (onaudioprocess data s) = status s
       \<and> error (onaudioprocess data s) = error s"
  using assms
  by (simp add: visualizer_avg_def abs_sum_eq updateVisualizer_def onaudioprocess_def Let_def
      split: option.splits)

text \<open>
  C9 at a concrete input: on the active session, whose canvas has a 2d context, a frame
  of four samples with mean absolute amplitude 1/4 is drawn as a circle of radius 175.
\<close>

theorem visualizer_loudness_is_mean_abs_witness:
  "[1/2, -1/4, 0, 1/4] \<noteq> ([] :: real list)
   \<and> has_2d \<lparr>has_2d = True, cv_width = 320, cv_height = 320, drawn_radius = None\<rparr>
   \<and> visualizer_avg [1/2, -1/4, 0, 1/4] = Some (1/4)
   \<and> canvasRef (onaudioprocess [1/2, -1/4, 0, 1/4] active_session)
       = Some \<lparr>has_2d = True, cv_width = 320, cv_height = 320, drawn_radius = Some 175\<rparr>
   \<and> nextStartTimeRef (onaudioprocess [1/2, -1/4, 0, 1/4] active_session) = nextStartTimeRef active_session"
proof -
  have h: "[1/2, -1/4, 0, 1/4] \<noteq> ([] :: real list)" by simp
  have h2: "has_2d \<lparr>has_2d = True, cv_width = 320, cv_height = 320, drawn_radius = None\<rparr>"
    by simp
  have c: "canvasRef active_session
       = Some \<lparr>has_2d = True, cv_width = 320, cv_height = 320, drawn_radius = None\<rparr>"
    by (simp add: sample_defs callback_defs)
  from visualizer_loudness_is_mean_abs [OF h h2, of active_session] h h2 c show ?thesis by simp
qed

section \<open>The tool toggles of the chat view\<close>

text \<open>
  C10. After any click on a toggle and after any selection of a model, at most one of
  \<open>useThinking\<close>, \<open>useSearch\<close>, \<open>useMaps\<close> is true, whatever the switches were before, and so
  it is after every sequence of clicks from the initial switches; and the request
  \<open>handleSend\<close> builds carries at most one of the thinking budget, the search tool and
  the maps tool.
\<close>

theorem tool_toggles_mutually_exclusive:
  "active_toggles (chat_step e c) \<le> 1
   \<and> active_toggles (chat_run es init_chat_controls) \<le> 1
   \<and> configured_features (handleSend_request position c) \<le> 1"
proof -
  have 1: "active_toggles (chat_step e c) \<le> 1" for e c
    by (cases e) (simp_all add: active_toggles_def count_true_def)
  have 2: "active_toggles (chat_run es c) \<le> 1" if "active_toggles c \<le> 1" for c
    using that
  proof (induction es arbitrary: c)
    case Nil
    then show ?case by simp
  next
    case (Cons e es)
    show ?case using Cons.IH [OF 1 [of e c]] by simp
  qed
  have 3: "configured_features (handleSend_request position c) \<le> 1"
    by (simp add: configured_features_def handleSend_request_def count_true_def Let_def)
  have "active_toggles init_chat_controls \<le> 1"
    by (simp add: active_toggles_def init_chat_controls_def count_true_def)
  with 1 2 3 show ?thesis by simp
qed

end
